theory Spec2Isabelle
  imports Complex_Main
begin

section \<open>Numbers and dates\<close>

text \<open>
  The component computes with JavaScript numbers and \<open>Date\<close> objects. Numbers are
  modelled as \<open>real\<close> (the idealisation of a finite double; a division whose divisor is
  zero gives \<open>Infinity\<close> or \<open>NaN\<close> in the source and is a separate branch of the model).
  A \<open>Date\<close> is its time value: the number of milliseconds since 1970-01-01T00:00 on a
  time-zone-naive local time line (no daylight-saving shifts), an \<open>int\<close>.
\<close>

type_synonym Date = int

definition durationDay :: int where
  "durationDay = 86400000"

definition durationWeek :: int where
  "durationWeek = 604800000"

text \<open>\<open>Date.getDay\<close>: 0 is Sunday; day 0 of the time line (1970-01-01) is a Thursday.\<close>

definition getDay :: "Date \<Rightarrow> int" where
  "getDay t = (t div durationDay + 4) mod 7"

text \<open>
  \<open>Date.toDateString\<close> prints weekday, month, day and year. Two dates print the same
  string exactly when they fall on the same calendar day, so the string is represented
  by the day number.
\<close>

definition toDateString :: "Date \<Rightarrow> int" where
  "toDateString t = t div durationDay"

subsection \<open>The d3-time intervals used by the component\<close>

text \<open>
  \<open>timeDay\<close>: \<open>floor\<close> is \<open>setHours(0, 0, 0, 0)\<close>, \<open>offset\<close> is
  \<open>setDate(getDate() + step)\<close>, and \<open>ceil\<close> is d3's generic
  \<open>floor(date - 1); offset(date, 1); floor(date)\<close>.
\<close>

definition timeDay_floor :: "Date \<Rightarrow> Date" where
  "timeDay_floor t = t - t mod durationDay"

definition timeDay_offset :: "Date \<Rightarrow> int \<Rightarrow> Date" where
  "timeDay_offset t step = t + step * durationDay"

definition timeDay_ceil :: "Date \<Rightarrow> Date" where
  "timeDay_ceil t = timeDay_floor (timeDay_offset (timeDay_floor (t - 1)) 1)"

text \<open>
  The loop of d3's \<open>interval.range\<close> (step 1):
  \<open>do range.push(previous = new Date(+start)), offseti(start, step), floori(start);
  while (previous < start && start < stop)\<close>.
\<close>

function range_loop :: "Date \<Rightarrow> Date \<Rightarrow> Date list" where
  "range_loop start stop =
     start # (let start' = timeDay_floor (timeDay_offset start 1)
              in if start < start' \<and> start' < stop then range_loop start' stop else [])"
  by pat_completeness auto
termination
  by (relation "measure (\<lambda>(start, stop). nat (stop - start))") auto

declare range_loop.simps [simp del]

text \<open>
  \<open>timeDays(start, stop)\<close> is \<open>timeDay.range(start, stop)\<close>: the range starts at
  \<open>ceil(start)\<close> and is empty unless that is before \<open>stop\<close>; \<open>stop\<close> itself is never
  produced.
\<close>

definition timeDays :: "Date \<Rightarrow> Date \<Rightarrow> Date list" where
  "timeDays start stop =
     (let start' = timeDay_ceil start
      in if \<not> start' < stop then [] else range_loop start' stop)"

text \<open>
  \<open>timeMonday\<close> is \<open>weekday(1)\<close>: \<open>floor\<close> is
  \<open>setDate(getDate() - (getDay() + 7 - 1) % 7); setHours(0, 0, 0, 0)\<close>, and
  \<open>count(start, end)\<close> floors both arguments and returns
  \<open>Math.floor((end - start) / durationWeek)\<close>.
\<close>

definition timeMonday_floor :: "Date \<Rightarrow> Date" where
  "timeMonday_floor t =
     timeDay_floor (t - ((getDay t + 7 - 1) mod 7) * durationDay)"

definition timeMonday_count :: "Date \<Rightarrow> Date \<Rightarrow> int" where
  "timeMonday_count start end' =
     (timeMonday_floor end' - timeMonday_floor start) div durationWeek"

section \<open>Data model\<close>

text \<open>
  Modelled from the spec: the type \<open>HeatmapDataPoint\<close> is imported from \<open>../types\<close>,
  which is not among the sources. The spec gives it as
  \<open>{ date: calendar-day, count: non-negative integer }\<close>; the component reads the
  fields \<open>date\<close> (a \<open>Date\<close>) and \<open>count\<close>.
\<close>

record HeatmapDataPoint =
  date :: Date
  count :: nat

record rgb =
  red :: int
  green :: int
  blue :: int

text \<open>The three colours of the ramp: \<open>#ebedf0\<close>, \<open>#7bc96f\<close>, \<open>#196127\<close>.\<close>

definition color_empty :: rgb where
  "color_empty = \<lparr>red = 235, green = 237, blue = 240\<rparr>"

definition color_mid :: rgb where
  "color_mid = \<lparr>red = 123, green = 201, blue = 111\<rparr>"

definition color_high :: rgb where
  "color_high = \<lparr>red = 25, green = 97, blue = 39\<rparr>"

definition dayCount :: real where
  "dayCount = 7"

definition cellGap :: real where
  "cellGap = 3"

section \<open>Colour scale\<close>

text \<open>
  \<open>scaleLinear().domain([d0, d1, d2]).range([c0, c1, c2]).clamp(true)\<close> of d3-scale,
  for colour strings: the input is clamped to the domain's end points, the segment is
  found by \<open>bisect(domain, x, 1, 2) - 1\<close>, the input is normalised on that segment
  and the two colours of the segment are interpolated per channel. The resulting colour
  is printed with each channel rounded (\<open>Math.round\<close>) and limited to 0..255.
\<close>

definition Math_round :: "real \<Rightarrow> int" where
  "Math_round v = \<lfloor>v + 1 / 2\<rfloor>"

definition clampi :: "real \<Rightarrow> int" where
  "clampi v = max 0 (min 255 (Math_round v))"

definition interpolateRgb :: "rgb \<Rightarrow> rgb \<Rightarrow> real \<Rightarrow> rgb" where
  "interpolateRgb a b t =
     \<lparr>red = clampi (real_of_int (red a) + t * real_of_int (red b - red a)),
      green = clampi (real_of_int (green a) + t * real_of_int (green b - green a)),
      blue = clampi (real_of_int (blue a) + t * real_of_int (blue b - blue a))\<rparr>"

text \<open>\<open>normalize(a, b)\<close>: \<open>(b -= a) ? x => (x - a) / b : constant(0.5)\<close>.\<close>

definition normalize :: "real \<Rightarrow> real \<Rightarrow> real \<Rightarrow> real" where
  "normalize a b x = (if b - a \<noteq> 0 then (x - a) / (b - a) else 1 / 2)"

text \<open>\<open>clamper(a, b)\<close>: swaps its bounds when \<open>a > b\<close>, then \<open>max(a, min(b, x))\<close>.\<close>

definition clamper :: "real \<Rightarrow> real \<Rightarrow> real \<Rightarrow> real" where
  "clamper a b x =
     (let a' = (if a > b then b else a); b' = (if a > b then a else b)
      in max a' (min b' x))"

text \<open>
  \<open>bisect(domain, x, 1, 2)\<close> on a three-point domain makes one comparison, with
  \<open>domain[1]\<close>: the result is 2 when \<open>domain[1] <= x\<close> and 1 otherwise.
\<close>

definition bisect_1_2 :: "real \<times> real \<times> real \<Rightarrow> real \<Rightarrow> nat" where
  "bisect_1_2 dm x = (case dm of (d0, d1, d2) \<Rightarrow> if d1 \<le> x then 2 else 1)"

text \<open>\<open>polymap\<close> reverses a descending domain (and the range with it).\<close>

definition polymap :: "real \<times> real \<times> real \<Rightarrow> rgb \<times> rgb \<times> rgb \<Rightarrow> real \<Rightarrow> rgb" where
  "polymap dm rg x =
     (case dm of (d0, d1, d2) \<Rightarrow> case rg of (c0, c1, c2) \<Rightarrow>
        let dm' = (if d2 < d0 then (d2, d1, d0) else (d0, d1, d2));
            rg' = (if d2 < d0 then (c2, c1, c0) else (c0, c1, c2))
        in case dm' of (e0, e1, e2) \<Rightarrow> case rg' of (k0, k1, k2) \<Rightarrow>
           if bisect_1_2 dm' x - 1 = 0
           then interpolateRgb k0 k1 (normalize e0 e1 x)
           else interpolateRgb k1 k2 (normalize e1 e2 x))"

definition scaleLinear_clamp :: "real \<times> real \<times> real \<Rightarrow> rgb \<times> rgb \<times> rgb \<Rightarrow> real \<Rightarrow> rgb" where
  "scaleLinear_clamp dm rg x =
     (case dm of (d0, d1, d2) \<Rightarrow> polymap dm rg (clamper d0 d2 x))"

text \<open>\<open>Math.max(...xs)\<close>; of no arguments it is \<open>-Infinity\<close>, here \<open>None\<close>.\<close>

fun Math_max :: "real list \<Rightarrow> real option" where
  "Math_max [] = None"
| "Math_max (x # xs) = Some (case Math_max xs of None \<Rightarrow> x | Some m \<Rightarrow> max x m)"

text \<open>
  The reactive declaration of \<open>colorScale\<close> (the right-hand side that Svelte re-runs
  when \<open>dataPoints\<close> changes). With no data point the third domain point is
  \<open>-Infinity\<close>, which is outside the model: \<open>None\<close>.
\<close>

definition build_colorScale :: "HeatmapDataPoint list \<Rightarrow> (real \<Rightarrow> rgb) option" where
  "build_colorScale dps =
     (case Math_max (map (\<lambda>d. real (count d)) dps) of
        None \<Rightarrow> None
      | Some m \<Rightarrow>
          Some (scaleLinear_clamp (0, max m 10 / 2, m)
                  (color_empty, color_mid, color_high)))"

section \<open>The component\<close>

subsection \<open>The drawable surface\<close>

text \<open>
  Text contents are kept symbolic: the year legend carries its total, a month label
  either the number of the mapped month name or the unmapped English name, a week-day
  label its index in the \<open>weekDays\<close> array.
\<close>

datatype label = YearTotal nat | ChineseMonth nat | EnglishMonth string | WeekDay nat

datatype attr = Num real | Str string | Colour rgb

record cell =
  cell_x :: real
  cell_y :: real
  cell_fill :: rgb
  cell_date :: Date
  cell_count :: nat

text \<open>
  A rectangle keeps the cell its two hover listeners close over; a group keeps its
  \<open>translate\<close> transform, if it has one.
\<close>

datatype svg_node =
    TextNode label "(string \<times> attr) list"
  | RectNode "(string \<times> attr) list" cell
  | GNode "(real \<times> real) option" "svg_node list"

datatype diag =
    Debug_mounted
  | Debug_newWidth_illegal real
  | Error_no_data
  | Debug_done real real

text \<open>
  The component's variables, the children of \<open>svgRef\<close> (its \<open>innerHTML\<close>) and the
  messages written to the console.
\<close>

record state =
  dataPoints :: "HeatmapDataPoint list"
  width :: real
  fontColor :: string
  fontSize :: real
  height :: real
  cellSize :: real
  colorScale :: "real \<Rightarrow> rgb"
  svgRef :: "svg_node list"
  console :: "diag list"

text \<open>
  \<open>timeMonth.range\<close> and \<open>timeFormat("%b")\<close> are used by the month labels only; they
  are taken as given.
\<close>

record month_lib =
  timeMonth_range :: "Date \<Rightarrow> Date \<Rightarrow> Date list"
  timeFormat_b :: "Date \<Rightarrow> string"

definition chineseMonths :: "string \<Rightarrow> nat option" where
  "chineseMonths = map_of
     [(''Jan'', 1), (''Feb'', 2), (''Mar'', 3), (''Apr'', 4), (''May'', 5), (''Jun'', 6),
      (''Jul'', 7), (''Aug'', 8), (''Sep'', 9), (''Oct'', 10), (''Nov'', 11), (''Dec'', 12)]"

subsection \<open>Generators\<close>

definition generateYearLegendSVG :: "state \<Rightarrow> svg_node" where
  "generateYearLegendSVG s =
     (let yearCount = foldl (\<lambda>sum d. sum + count d) 0 (dataPoints s)
      in TextNode (YearTotal yearCount)
           [(''y'', Num (- cellSize s * 2)),
            (''font-size'', Num (cellSize s * 1.5)),
            (''font-weight'', Str ''bold''),
            (''fill'', Str (fontColor s))])"

definition generateMonthLabelsSVG :: "month_lib \<Rightarrow> state \<Rightarrow> Date \<Rightarrow> Date \<Rightarrow> svg_node" where
  "generateMonthLabelsSVG L s startDate endDate =
     (let monthLabels = timeMonth_range L startDate endDate;
          monthLabelY = (dayCount + 2) * cellSize s + (dayCount - 2) * cellGap
      in GNode None
           (map (\<lambda>d.
              let englishMonth = timeFormat_b L d;
                  adjustTimeWeekCount =
                    timeMonday_count (timeMonday_floor startDate) (timeMonday_floor d)
              in TextNode
                   (case chineseMonths englishMonth of
                      Some m \<Rightarrow> ChineseMonth m
                    | None \<Rightarrow> EnglishMonth englishMonth)
                   [(''x'', Num (real_of_int adjustTimeWeekCount * (cellSize s + cellGap))),
                    (''y'', Num monthLabelY),
                    (''font-size'', Num (cellSize s - 1)),
                    (''fill'', Str (fontColor s))])
            monthLabels))"

definition generateWeekLabelsSVG :: "state \<Rightarrow> int \<Rightarrow> svg_node" where
  "generateWeekLabelsSVG s weekCount =
     (let weekLabelX =
            cellSize s * real_of_int (weekCount + 2) + cellGap * real_of_int (weekCount - 1)
      in GNode None
           (map (\<lambda>index.
              TextNode (WeekDay index)
                [(''x'', Num weekLabelX),
                 (''y'', Num ((real index * 2 + 0.5) * (cellSize s + cellGap))),
                 (''text-anchor'', Str ''end''),
                 (''alignment-baseline'', Str ''middle''),
                 (''font-size'', Num (cellSize s - 1)),
                 (''fill'', Str (fontColor s))])
            [0, 1, 2, 3]))"

text \<open>
  The objects built by the \<open>map\<close> of \<open>generateCellsSVG\<close>, one for each date of
  \<open>timeDays(startDate, endDate)\<close>. \<open>dataPoints.find\<close> returns the first data point
  whose date prints the same \<open>toDateString\<close>.
\<close>

definition make_cell :: "state \<Rightarrow> Date \<Rightarrow> Date \<Rightarrow> cell" where
  "make_cell s startDate d =
     (let week = timeMonday_count (timeMonday_floor startDate) (timeMonday_floor d);
          day = (getDay d + 6) mod 7;
          dataPoint = find (\<lambda>p. toDateString (date p) = toDateString d) (dataPoints s);
          cnt = (case dataPoint of Some p \<Rightarrow> count p | None \<Rightarrow> 0)
      in \<lparr>cell_x = real_of_int week * (cellSize s + cellGap),
          cell_y = real_of_int day * (cellSize s + cellGap),
          cell_fill = colorScale s (real cnt),
          cell_date = d,
          cell_count = cnt\<rparr>)"

definition cells :: "state \<Rightarrow> Date \<Rightarrow> Date \<Rightarrow> cell list" where
  "cells s startDate endDate = map (make_cell s startDate) (timeDays startDate endDate)"

definition generateCellsSVG :: "state \<Rightarrow> Date \<Rightarrow> Date \<Rightarrow> svg_node" where
  "generateCellsSVG s startDate endDate =
     GNode None
       (map (\<lambda>c.
          RectNode
            [(''x'', Num (cell_x c)),
             (''y'', Num (cell_y c)),
             (''width'', Num (cellSize s)),
             (''height'', Num (cellSize s)),
             (''fill'', Colour (cell_fill c)),
             (''rx'', Str ''2''),
             (''ry'', Str ''2'')]
            c)
        (cells s startDate endDate))"

subsection \<open>Rendering\<close>

text \<open>
  The week count and the cell size as \<open>generateSVG\<close> computes them from the first and
  the last data point and the width.
\<close>

definition weekCount :: "HeatmapDataPoint list \<Rightarrow> int" where
  "weekCount dps =
     (let dates = map date dps; startDate = hd dates; endDate = last dates
      in timeMonday_count (timeMonday_floor startDate) (timeMonday_floor endDate) + 1)"

text \<open>
  The solution of the width equation before the cap. The divisor \<open>weekCount + 2\<close> is
  zero only for data whose last date lies weeks before its first; the quotient is then
  \<open>Infinity\<close> or \<open>NaN\<close> in the source and \<open>None\<close> here.
\<close>

definition unclamped_cellSize :: "real \<Rightarrow> int \<Rightarrow> real option" where
  "unclamped_cellSize w n =
     (if n + 2 = 0 then None
      else Some ((w - real_of_int (n - 1) * cellGap) / real_of_int (n + 2)))"

definition generateSVG :: "month_lib \<Rightarrow> state \<Rightarrow> state option" where
  "generateSVG L s =
     (let s1 = s\<lparr>svgRef := []\<rparr>
      in if dataPoints s1 = []
         then Some (s1\<lparr>console := console s1 @ [Error_no_data]\<rparr>)
         else
           let dates = map date (dataPoints s1);
               startDate = hd dates;
               endDate = last dates;
               n = weekCount (dataPoints s1)
           in case unclamped_cellSize (width s1) n of
                None \<Rightarrow> None
              | Some c \<Rightarrow>
                  let s2 = s1\<lparr>cellSize := min c 14\<rparr>;
                      margin_top = cellSize s2 * 3.5;
                      s3 = s2\<lparr>height :=
                             (dayCount + 3.5 + 2) * cellSize s2 + (dayCount - 1) * cellGap\<rparr>;
                      svgGroup = GNode (Some (0, margin_top))
                        [generateYearLegendSVG s3,
                         generateMonthLabelsSVG L s3 startDate endDate,
                         generateWeekLabelsSVG s3 n,
                         generateCellsSVG s3 startDate endDate]
                  in Some (s3\<lparr>svgRef := [svgGroup],
                             console := console s3 @ [Debug_done (width s3) (height s3)]\<rparr>))"

definition refreshSVG ::
  "month_lib \<Rightarrow> state \<Rightarrow> HeatmapDataPoint list \<Rightarrow> real \<Rightarrow> string \<Rightarrow> real \<Rightarrow> state option" where
  "refreshSVG L s newDataPoints newWidth newFontColor newFontSize =
     (if newWidth \<le> 0
      then Some (s\<lparr>console := console s @ [Debug_newWidth_illegal newWidth]\<rparr>)
      else generateSVG L
             (s\<lparr>dataPoints := newDataPoints, width := newWidth,
                fontColor := newFontColor, fontSize := newFontSize\<rparr>))"

subsection \<open>Tooltip\<close>

text \<open>
  The tooltip element with the style properties the controller writes and the layout
  sizes it reads (\<open>clientWidth\<close> and \<open>clientHeight\<close> are the sizes of the element once
  it shows the new content); \<open>svgRect\<close> is the bounding rectangle of the surface.
  \<open>style_left\<close> and \<open>style_top\<close> are the pixel numbers written to \<open>style.left\<close> and
  \<open>style.top\<close>.
\<close>

record tooltip_el =
  textContent :: string
  style_visibility :: string
  style_display :: string
  style_left :: real
  style_top :: real
  clientWidth :: real
  clientHeight :: real

record rect =
  rect_x :: real
  rect_y :: real
  rect_width :: real
  rect_height :: real

definition tooltip_show :: "rect \<Rightarrow> tooltip_el \<Rightarrow> string \<Rightarrow> real \<Rightarrow> real \<Rightarrow> tooltip_el" where
  "tooltip_show svgRect tooltipRef content cellX cellY =
     (let t1 = tooltipRef\<lparr>textContent := content, style_visibility := ''visible'',
                            style_display := ''block''\<rparr>;
          tooltipWidth = clientWidth t1;
          adjustedX = cellX - rect_x svgRect;
          isNearLeftEdge = adjustedX - tooltipWidth / 2 < 0;
          isNearRightEdge = adjustedX + tooltipWidth / 2 > rect_width svgRect;
          adjustedX' =
            (if isNearLeftEdge then tooltipWidth / 2
             else if isNearRightEdge then rect_width svgRect - tooltipWidth / 2
             else adjustedX);
          tooltipHeight = clientHeight t1;
          adjustedY = cellY - rect_y svgRect - tooltipHeight - cellGap + 1
      in t1\<lparr>style_left := adjustedX', style_top := adjustedY\<rparr>)"

definition tooltip_hide :: "tooltip_el \<Rightarrow> tooltip_el" where
  "tooltip_hide tooltipRef = tooltipRef\<lparr>style_visibility := ''hidden''\<rparr>"

subsection \<open>Mounting\<close>

text \<open>
  The component's variables when the instance is created (\<open>height = 0\<close>,
  \<open>cellSize = fontSize\<close>, an empty surface), and \<open>onMount\<close>, which renders once.
\<close>

definition init_state ::
  "HeatmapDataPoint list \<Rightarrow> real \<Rightarrow> string \<Rightarrow> real \<Rightarrow> (real \<Rightarrow> rgb) \<Rightarrow> state" where
  "init_state dps w fc fs scale =
     \<lparr>dataPoints = dps, width = w, fontColor = fc, fontSize = fs, height = 0,
      cellSize = fs, colorScale = scale, svgRef = [], console = []\<rparr>"

definition onMount :: "month_lib \<Rightarrow> state \<Rightarrow> state option" where
  "onMount L s =
     (case generateSVG L s of
        None \<Rightarrow> None
      | Some s' \<Rightarrow> Some (s'\<lparr>console := console s' @ [Debug_mounted]\<rparr>))"

section \<open>Concrete inputs\<close>

text \<open>A month library that produces no month label.\<close>

definition lib0 :: month_lib where
  "lib0 = \<lparr>timeMonth_range = (\<lambda>a b. []), timeFormat_b = (\<lambda>d. ''Jan'')\<rparr>"

text \<open>
  Local midnight of 2024-01-01, a Monday, is day 19723 of the time line. The first
  data set is the scenario of the specification: one data point with count 5 for each
  of the eight days 2024-01-01 .. 2024-01-08, at width 200.
\<close>

definition jan_1_2024 :: Date where
  "jan_1_2024 = 1704067200000"

definition scenario_dataPoints :: "HeatmapDataPoint list" where
  "scenario_dataPoints =
     map (\<lambda>i. \<lparr>date = jan_1_2024 + int i * durationDay, count = 5\<rparr>) [0..<8]"

definition scenario_state :: state where
  "scenario_state =
     init_state scenario_dataPoints 200 ''#666'' 14
       (scaleLinear_clamp (0, 5, 5) (color_empty, color_mid, color_high))"

text \<open>A year of data (2024-01-01 and 2024-12-30 are its first and last day) at width 100.\<close>

definition year_dataPoints :: "HeatmapDataPoint list" where
  "year_dataPoints =
     [\<lparr>date = jan_1_2024, count = 1\<rparr>,
      \<lparr>date = jan_1_2024 + 364 * durationDay, count = 2\<rparr>]"

definition narrow_state :: state where
  "narrow_state =
     init_state year_dataPoints 100 ''#666'' 14
       (scaleLinear_clamp (0, 5, 2) (color_empty, color_mid, color_high))"

text \<open>
  A component that has drawn something and whose data has become empty, as after
  \<open>refreshSVG([], 200, ...)\<close>.
\<close>

definition drawn_state :: state where
  "drawn_state =
     (init_state [] 200 ''#666'' 14
        (scaleLinear_clamp (0, 5, 5) (color_empty, color_mid, color_high)))
       \<lparr>svgRef := [GNode (Some (0, 49)) [GNode None []]]\<rparr>"

text \<open>
  Data with a gap and a duplicate: 2024-01-01 (count 4), 2024-01-03 twice (counts 7
  and 9, the second at 08:00), 2024-01-04 at noon.
\<close>

definition gap_dataPoints :: "HeatmapDataPoint list" where
  "gap_dataPoints =
     [\<lparr>date = jan_1_2024, count = 4\<rparr>,
      \<lparr>date = jan_1_2024 + 2 * durationDay, count = 7\<rparr>,
      \<lparr>date = jan_1_2024 + 2 * durationDay + 28800000, count = 9\<rparr>,
      \<lparr>date = jan_1_2024 + 3 * durationDay + 43200000, count = 1\<rparr>]"

definition gap_state :: state where
  "gap_state =
     init_state gap_dataPoints 200 ''#666'' 14
       (scaleLinear_clamp (0, 5, 9) (color_empty, color_mid, color_high))"

text \<open>A surface 100 wide at the origin and tooltips 40 and 120 wide.\<close>

definition surface_100 :: rect where
  "surface_100 = \<lparr>rect_x = 0, rect_y = 0, rect_width = 100, rect_height = 150\<rparr>"

definition tooltip_of_width :: "real \<Rightarrow> tooltip_el" where
  "tooltip_of_width w =
     \<lparr>textContent = [], style_visibility = ''hidden'', style_display = ''none'',
      style_left = 0, style_top = 0, clientWidth = w, clientHeight = 20\<rparr>"

text \<open>The same year of data at the default width 888.\<close>

definition wide_state :: state where
  "wide_state =
     init_state year_dataPoints 888 ''#666'' 14
       (scaleLinear_clamp (0, 5, 2) (color_empty, color_mid, color_high))"

text \<open>Two data points with counts 0 and 10.\<close>

definition ten_dataPoints :: "HeatmapDataPoint list" where
  "ten_dataPoints =
     [\<lparr>date = jan_1_2024, count = 0\<rparr>, \<lparr>date = jan_1_2024 + durationDay, count = 10\<rparr>]"

text \<open>Two data points whose counts are both 0.\<close>

definition zero_dataPoints :: "HeatmapDataPoint list" where
  "zero_dataPoints =
     [\<lparr>date = jan_1_2024, count = 0\<rparr>, \<lparr>date = jan_1_2024 + durationDay, count = 0\<rparr>]"

text \<open>First and last day two weeks apart: 2024-01-01 and 2024-01-15, both Mondays.\<close>

definition fortnight_dataPoints :: "HeatmapDataPoint list" where
  "fortnight_dataPoints =
     [\<lparr>date = jan_1_2024, count = 1\<rparr>, \<lparr>date = jan_1_2024 + 14 * durationDay, count = 2\<rparr>]"

section \<open>Monday boundaries\<close>

text \<open>
  A Monday boundary is an instant that is its own Monday floor: a local midnight at
  which a Monday starts. The first count below follows the wording of the
  specification (boundaries strictly between two instants); the second counts the
  boundaries after the first instant up to and including the second, as d3 documents
  \<open>interval.count\<close>.
\<close>

definition monday_boundary :: "Date \<Rightarrow> bool" where
  "monday_boundary m \<longleftrightarrow> timeMonday_floor m = m"

definition mondays_strictly_between :: "Date \<Rightarrow> Date \<Rightarrow> nat" where
  "mondays_strictly_between a b = card {m. monday_boundary m \<and> a < m \<and> m < b}"

definition mondays_after_upto :: "Date \<Rightarrow> Date \<Rightarrow> nat" where
  "mondays_after_upto a b = card {m. monday_boundary m \<and> a < m \<and> m \<le> b}"

text \<open>Monday weeks numbered along the time line, and the Monday that starts a week.\<close>

definition monday_of :: "int \<Rightarrow> Date" where
  "monday_of k = k * durationWeek - 3 * durationDay"

definition week_of :: "Date \<Rightarrow> int" where
  "week_of t = (t div durationDay + 3) div 7"

section \<open>Auxiliary definitions\<close>

text \<open>
  The green channel before rounding, on the two segments of a domain \<open>[0, d, m]\<close>, for
  an input inside the domain.
\<close>

definition green_ramp :: "real \<Rightarrow> real \<Rightarrow> real \<Rightarrow> real" where
  "green_ramp d m x =
     (if x < d then 237 - 36 * (x / d) else 201 - 104 * normalize d m x)"

section \<open>Monday weeks\<close>

lemma monday_floor_generic:
  fixes t D :: int
  assumes "0 < D"
  shows "(t - (((t div D + 4) mod 7 + 7 - 1) mod 7) * D)
           - (t - (((t div D + 4) mod 7 + 7 - 1) mod 7) * D) mod D
         = ((t div D + 3) div 7) * (7 * D) - 3 * D"
proof -
  define q where "q = t div D"
  define k where "k = ((q + 4) mod 7 + 7 - 1) mod 7"
  have "(t - k * D) mod D = t mod D"
    by (metis mod_diff_right_eq mod_mult_self2_is_0 diff_zero)
  then have "(t - k * D) - (t - k * D) mod D = (t - t mod D) - k * D"
    by simp
  also have "t - t mod D = q * D"
    unfolding q_def by (simp add: minus_mod_eq_div_mult)
  also have "q * D - k * D = (q - k) * D"
    by (simp add: algebra_simps)
  also have "q - k = (q + 3) div 7 * 7 - 3"
    unfolding k_def by presburger
  finally show ?thesis
    unfolding k_def q_def by (simp add: algebra_simps)
qed

lemma durationWeek_eq: "durationWeek = 7 * durationDay"
  by (simp add: durationWeek_def durationDay_def)

lemma durationDay_pos: "0 < durationDay"
  by (simp add: durationDay_def)

text \<open>The Monday floor of a date is the last Monday midnight at or before it.\<close>

lemma timeMonday_floor_eq:
  "timeMonday_floor t = ((t div durationDay + 3) div 7) * durationWeek - 3 * durationDay"
  using monday_floor_generic [OF durationDay_pos, of t]
  unfolding timeMonday_floor_def timeDay_floor_def getDay_def durationWeek_eq by simp

lemma timeMonday_floor_mono: "a \<le> b \<Longrightarrow> timeMonday_floor a \<le> timeMonday_floor b"
proof -
  assume "a \<le> b"
  then have "a div durationDay \<le> b div durationDay"
    by (simp add: durationDay_def zdiv_mono1)
  then have "(a div durationDay + 3) div 7 \<le> (b div durationDay + 3) div 7"
    by (simp add: zdiv_mono1)
  then show ?thesis
    unfolding timeMonday_floor_eq by (simp add: durationWeek_def)
qed

lemma timeMonday_floor_idem: "timeMonday_floor (timeMonday_floor t) = timeMonday_floor t"
proof -
  define m where "m = (t div durationDay + 3) div 7"
  have "m * durationWeek - 3 * durationDay = (7 * m - 3) * durationDay"
    by (simp add: durationWeek_eq algebra_simps)
  then have "(m * durationWeek - 3 * durationDay) div durationDay = 7 * m - 3"
    using durationDay_pos by simp
  then have "timeMonday_floor (m * durationWeek - 3 * durationDay)
             = m * durationWeek - 3 * durationDay"
    by (simp add: timeMonday_floor_eq [of "m * durationWeek - 3 * durationDay"])
  then show ?thesis
    by (simp add: timeMonday_floor_eq [of t] m_def)
qed

lemma weekCount_eq:
  "dps \<noteq> [] \<Longrightarrow> weekCount dps =
     (timeMonday_floor (date (last dps)) - timeMonday_floor (date (hd dps))) div durationWeek + 1"
  by (simp add: weekCount_def timeMonday_count_def timeMonday_floor_idem hd_map last_map)

lemma weekCount_ge_1:
  assumes "dps \<noteq> []" and "date (hd dps) \<le> date (last dps)"
  shows "1 \<le> weekCount dps"
proof -
  have "0 \<le> timeMonday_floor (date (last dps)) - timeMonday_floor (date (hd dps))"
    using timeMonday_floor_mono [OF assms(2)] by simp
  then have "0 \<le> (timeMonday_floor (date (last dps)) - timeMonday_floor (date (hd dps)))
                    div durationWeek"
    by (simp add: durationWeek_def pos_imp_zdiv_nonneg_iff)
  then show ?thesis using weekCount_eq [OF assms(1)] by simp
qed

lemma timeMonday_floor_week: "timeMonday_floor t = monday_of (week_of t)"
  by (simp add: timeMonday_floor_eq monday_of_def week_of_def)

lemma week_of_monday: "week_of (monday_of k) = k"
proof -
  have "monday_of k = (7 * k - 3) * durationDay"
    by (simp add: monday_of_def durationWeek_eq algebra_simps)
  then have "monday_of k div durationDay = 7 * k - 3"
    using durationDay_pos by simp
  then show ?thesis by (simp add: week_of_def)
qed

lemma monday_boundary_iff: "monday_boundary m \<longleftrightarrow> (\<exists>k. m = monday_of k)"
  unfolding monday_boundary_def
  by (metis timeMonday_floor_week week_of_monday)

lemma monday_of_less: "monday_of i < monday_of j \<longleftrightarrow> i < j"
  by (simp add: monday_of_def durationWeek_def)

lemma monday_of_le: "monday_of i \<le> monday_of j \<longleftrightarrow> i \<le> j"
  by (simp add: monday_of_def durationWeek_def)

lemma inj_monday_of: "inj_on monday_of A"
  by (rule inj_onI) (simp add: monday_of_def durationWeek_def)

lemma mondays_after_upto_card: "mondays_after_upto (monday_of i) (monday_of j) = nat (j - i)"
proof -
  have "{m. monday_boundary m \<and> monday_of i < m \<and> m \<le> monday_of j} = monday_of ` {i<..j}"
    by (auto simp: monday_boundary_iff monday_of_less monday_of_le)
  then show ?thesis
    by (simp add: mondays_after_upto_def card_image inj_monday_of)
qed

lemma mondays_strictly_between_card:
  "mondays_strictly_between (monday_of i) (monday_of j) = nat (j - i - 1)"
proof -
  have "{m. monday_boundary m \<and> monday_of i < m \<and> m < monday_of j} = monday_of ` {i<..<j}"
    by (auto simp: monday_boundary_iff monday_of_less)
  then show ?thesis
    by (simp add: mondays_strictly_between_def card_image inj_monday_of)
qed

lemma timeMonday_count_week: "timeMonday_count a b = week_of b - week_of a"
proof -
  have "monday_of (week_of b) - monday_of (week_of a) = (week_of b - week_of a) * durationWeek"
    by (simp add: monday_of_def algebra_simps)
  then show ?thesis
    by (simp add: timeMonday_count_def timeMonday_floor_week durationWeek_def)
qed

lemma weekCount_week:
  "dps \<noteq> [] \<Longrightarrow> weekCount dps = week_of (date (last dps)) - week_of (date (hd dps)) + 1"
  by (simp add: weekCount_def timeMonday_count_week timeMonday_floor_week week_of_monday
        hd_map last_map)

lemma week_of_mono: "a \<le> b \<Longrightarrow> week_of a \<le> week_of b"
  unfolding week_of_def using durationDay_pos by (simp add: zdiv_mono1)

lemma monday_boundary_getDay:
  "monday_boundary m \<longleftrightarrow> m mod durationDay = 0 \<and> getDay m = 1"
proof
  assume "monday_boundary m"
  then obtain k where "m = monday_of k"
    unfolding monday_boundary_iff by blast
  then have m: "m = (7 * k - 3) * durationDay"
    by (simp add: monday_of_def durationWeek_eq algebra_simps)
  then have "m div durationDay = 7 * k - 3"
    using durationDay_pos by simp
  then have "getDay m = (7 * k + 1) mod 7"
    unfolding getDay_def by simp
  then have "getDay m = 1"
    by simp
  then show "m mod durationDay = 0 \<and> getDay m = 1"
    using m by simp
next
  assume a: "m mod durationDay = 0 \<and> getDay m = 1"
  define q where "q = m div durationDay"
  have m: "m = q * durationDay"
    using a unfolding q_def by (simp add: mod_eq_0_iff_dvd)
  have "(q + 4) mod 7 = 1"
    using a unfolding getDay_def q_def by simp
  then have "q = 7 * ((q + 3) div 7) - 3"
    by presburger
  then have "m = monday_of ((q + 3) div 7)"
    unfolding monday_of_def durationWeek_eq using m
    by (metis (no_types, opaque_lifting) left_diff_distrib mult.assoc mult.commute)
  then show "monday_boundary m"
    unfolding monday_boundary_iff by blast
qed

lemma fortnight_weeks:
  "week_of (date (last fortnight_dataPoints)) - week_of (date (hd fortnight_dataPoints)) = 2"
  by code_simp

section \<open>Week count\<close>

text \<open>
  C4 as stated: the week count is the number of Monday boundaries strictly between the
  Monday floor of the first date and the Monday floor of the last date, plus one. For
  the claim's own example (first date 2024-01-01, last date 2024-01-15, both their own
  Monday floors) the week count is 3, while one Monday boundary, 2024-01-08, lies
  strictly between the two floors, which gives 2.
\<close>

theorem weekCount_strictly_between_counterexample:
  "weekCount fortnight_dataPoints = 3 \<and>
   int (mondays_strictly_between (timeMonday_floor (date (hd fortnight_dataPoints)))
          (timeMonday_floor (date (last fortnight_dataPoints)))) + 1 = 2"
proof -
  have d: "fortnight_dataPoints \<noteq> []"
    by (simp add: fortnight_dataPoints_def)
  show ?thesis
    using fortnight_weeks
    by (simp add: weekCount_week [OF d] timeMonday_floor_week mondays_strictly_between_card)
qed

text \<open>
  C4, amended. For data points whose first date is not after the last, the week count
  is the number of Monday boundaries after the Monday floor of the first date up to
  and including the Monday floor of the last date, plus one; it is the distance of
  the two floors in weeks plus one.
\<close>

theorem weekCount_mondays:
  assumes "dps \<noteq> []" and "date (hd dps) \<le> date (last dps)"
  shows "weekCount dps
           = int (mondays_after_upto (timeMonday_floor (date (hd dps)))
                    (timeMonday_floor (date (last dps)))) + 1 \<and>
         weekCount dps
           = (timeMonday_floor (date (last dps)) - timeMonday_floor (date (hd dps)))
               div durationWeek + 1"
proof -
  have "week_of (date (hd dps)) \<le> week_of (date (last dps))"
    using assms(2) by (rule week_of_mono)
  then have "weekCount dps
           = int (mondays_after_upto (timeMonday_floor (date (hd dps)))
                    (timeMonday_floor (date (last dps)))) + 1"
    using assms(1) by (simp add: weekCount_week timeMonday_floor_week mondays_after_upto_card)
  then show ?thesis
    using weekCount_eq [OF assms(1)] by simp
qed

theorem weekCount_mondays_witness:
  "fortnight_dataPoints \<noteq> [] \<and>
   date (hd fortnight_dataPoints) \<le> date (last fortnight_dataPoints) \<and>
   weekCount fortnight_dataPoints = 3 \<and>
   int (mondays_after_upto (timeMonday_floor (date (hd fortnight_dataPoints)))
          (timeMonday_floor (date (last fortnight_dataPoints)))) + 1 = 3"
proof -
  have h: "fortnight_dataPoints \<noteq> []"
          "date (hd fortnight_dataPoints) \<le> date (last fortnight_dataPoints)"
    by (simp_all add: fortnight_dataPoints_def durationDay_def)
  have "weekCount fortnight_dataPoints = 3"
    using fortnight_weeks by (simp add: weekCount_week [OF h(1)])
  then show ?thesis
    using h weekCount_mondays [OF h] by simp
qed

section \<open>Refresh with an invalid width\<close>

text \<open>
  C7. A call of \<open>refreshSVG\<close> with a width that is zero or negative is rejected: it
  returns before any assignment, so the geometry (\<open>cellSize\<close>, \<open>height\<close>), the stored
  \<open>dataPoints\<close>, \<open>width\<close>, \<open>fontColor\<close> and \<open>fontSize\<close>, the colour scale and the
  drawn surface are what they were (nothing is rendered again); the only effect is the
  debug message.
\<close>

theorem refreshSVG_rejects_nonpositive_width:
  assumes "newWidth \<le> 0"
  shows "\<exists>s'. refreshSVG L s newDataPoints newWidth newFontColor newFontSize = Some s' \<and>
           cellSize s' = cellSize s \<and> height s' = height s \<and>
           dataPoints s' = dataPoints s \<and> width s' = width s \<and>
           fontColor s' = fontColor s \<and> fontSize s' = fontSize s \<and>
           colorScale s' = colorScale s \<and> svgRef s' = svgRef s \<and>
           console s' = console s @ [Debug_newWidth_illegal newWidth]"
  using assms by (simp add: refreshSVG_def)

theorem refreshSVG_rejects_nonpositive_width_witness:
  "(0::real) \<le> 0 \<and>
   (\<exists>s'. refreshSVG lib0 scenario_state year_dataPoints 0 ''#fff'' 16 = Some s' \<and>
      cellSize s' = cellSize scenario_state \<and> height s' = height scenario_state \<and>
      dataPoints s' = dataPoints scenario_state \<and> width s' = width scenario_state \<and>
      fontColor s' = fontColor scenario_state \<and> fontSize s' = fontSize scenario_state \<and>
      colorScale s' = colorScale scenario_state \<and> svgRef s' = svgRef scenario_state \<and>
      console s' = console scenario_state @ [Debug_newWidth_illegal 0])"
  using refreshSVG_rejects_nonpositive_width
          [of 0 lib0 scenario_state year_dataPoints "''#fff''" 16]
  by simp

section \<open>Tooltip placement\<close>

text \<open>
  C6. \<open>tooltip.show\<close> places the tooltip horizontally by three cases, tried in this
  order: when the tooltip centred on the anchor would reach past the left edge of the
  surface, \<open>left\<close> is half the tooltip's width; else, when it would reach past the
  right edge, \<open>left\<close> is the surface's width minus half the tooltip's width; otherwise
  \<open>left\<close> is the anchor's x relative to the surface.
\<close>

theorem tooltip_show_left:
  "(cellX - rect_x svgRect - clientWidth tt / 2 < 0 \<longrightarrow>
      style_left (tooltip_show svgRect tt content cellX cellY) = clientWidth tt / 2) \<and>
   (\<not> cellX - rect_x svgRect - clientWidth tt / 2 < 0 \<and>
    cellX - rect_x svgRect + clientWidth tt / 2 > rect_width svgRect \<longrightarrow>
      style_left (tooltip_show svgRect tt content cellX cellY)
        = rect_width svgRect - clientWidth tt / 2) \<and>
   (\<not> cellX - rect_x svgRect - clientWidth tt / 2 < 0 \<and>
    \<not> cellX - rect_x svgRect + clientWidth tt / 2 > rect_width svgRect \<longrightarrow>
      style_left (tooltip_show svgRect tt content cellX cellY) = cellX - rect_x svgRect)"
  by (simp add: tooltip_show_def Let_def)

theorem tooltip_show_left_witness:
  "((10::real) - rect_x surface_100 - clientWidth (tooltip_of_width 40) / 2 < 0 \<and>
    style_left (tooltip_show surface_100 (tooltip_of_width 40) ''5'' 10 60) = 20) \<and>
   (\<not> (90::real) - rect_x surface_100 - clientWidth (tooltip_of_width 40) / 2 < 0 \<and>
    (90::real) - rect_x surface_100 + clientWidth (tooltip_of_width 40) / 2
      > rect_width surface_100 \<and>
    style_left (tooltip_show surface_100 (tooltip_of_width 40) ''5'' 90 60) = 80) \<and>
   (\<not> (50::real) - rect_x surface_100 - clientWidth (tooltip_of_width 40) / 2 < 0 \<and>
    \<not> (50::real) - rect_x surface_100 + clientWidth (tooltip_of_width 40) / 2
      > rect_width surface_100 \<and>
    style_left (tooltip_show surface_100 (tooltip_of_width 40) ''5'' 50 60) = 50)"
  using tooltip_show_left [of 10 surface_100 "tooltip_of_width 40" "''5''" 60]
        tooltip_show_left [of 90 surface_100 "tooltip_of_width 40" "''5''" 60]
        tooltip_show_left [of 50 surface_100 "tooltip_of_width 40" "''5''" 60]
  by (simp add: surface_100_def tooltip_of_width_def tooltip_show_def Let_def)

text \<open>
  C10 as stated: whenever the tooltip is wider than the surface, \<open>left\<close> is half the
  tooltip's width and never the surface's width minus that half. A tooltip wider than
  the surface need not reach past both edges: on a surface 100 wide, a tooltip 120 wide
  anchored at 80 stays right of the left edge (80 - 60 = 20) and is clamped at the
  right edge, to 100 - 60 = 40.
\<close>

theorem tooltip_wider_than_surface_counterexample:
  "rect_width surface_100 < clientWidth (tooltip_of_width 120) \<and>
   style_left (tooltip_show surface_100 (tooltip_of_width 120) ''5'' 80 60)
     = rect_width surface_100 - clientWidth (tooltip_of_width 120) / 2 \<and>
   style_left (tooltip_show surface_100 (tooltip_of_width 120) ''5'' 80 60)
     \<noteq> clientWidth (tooltip_of_width 120) / 2"
  by (simp add: surface_100_def tooltip_of_width_def tooltip_show_def Let_def)

text \<open>
  C10, amended. Whenever the tooltip centred on the anchor would reach past both edges
  of the surface (which makes the tooltip wider than the surface), the left-edge clamp
  takes priority: \<open>left\<close> is half the tooltip's width, and that is not the surface's
  width minus half the tooltip's width.
\<close>

theorem tooltip_both_edges_left_priority:
  assumes "cellX - rect_x svgRect - clientWidth tt / 2 < 0"
      and "cellX - rect_x svgRect + clientWidth tt / 2 > rect_width svgRect"
  shows "style_left (tooltip_show svgRect tt content cellX cellY) = clientWidth tt / 2 \<and>
         rect_width svgRect < clientWidth tt \<and>
         style_left (tooltip_show svgRect tt content cellX cellY)
           \<noteq> rect_width svgRect - clientWidth tt / 2"
  using assms by (simp add: tooltip_show_def Let_def)

theorem tooltip_both_edges_left_priority_witness:
  "(50::real) - rect_x surface_100 - clientWidth (tooltip_of_width 120) / 2 < 0 \<and>
   (50::real) - rect_x surface_100 + clientWidth (tooltip_of_width 120) / 2
     > rect_width surface_100 \<and>
   style_left (tooltip_show surface_100 (tooltip_of_width 120) ''5'' 50 60) = 60 \<and>
   style_left (tooltip_show surface_100 (tooltip_of_width 120) ''5'' 50 60) \<noteq> 40"
  using tooltip_both_edges_left_priority
          [of 50 surface_100 "tooltip_of_width 120" "''5''" 60]
  by (simp add: surface_100_def tooltip_of_width_def tooltip_show_def Let_def)

section \<open>Cell size\<close>

text \<open>What a render with data computes, given the solution of the width equation.\<close>

lemma generateSVG_geometry:
  assumes "dataPoints s \<noteq> []"
      and "unclamped_cellSize (width s) (weekCount (dataPoints s)) = Some u"
  shows "\<exists>s'. generateSVG L s = Some s' \<and> cellSize s' = min u 14 \<and>
           height s' = (dayCount + 3.5 + 2) * min u 14 + (dayCount - 1) * cellGap \<and>
           width s' = width s \<and> dataPoints s' = dataPoints s \<and> length (svgRef s') = 1"
  using assms by (simp add: generateSVG_def Let_def)

lemma unclamped_cellSize_ordered:
  assumes "dps \<noteq> []" and "date (hd dps) \<le> date (last dps)"
  shows "unclamped_cellSize w (weekCount dps)
           = Some ((w - real_of_int (weekCount dps - 1) * cellGap)
                    / real_of_int (weekCount dps + 2))"
  using weekCount_ge_1 [OF assms] by (simp add: unclamped_cellSize_def)

lemma scenario_unclamped:
  "unclamped_cellSize (width scenario_state) (weekCount (dataPoints scenario_state))
     = Some (197 / 4)"
  by code_simp

lemma wide_unclamped:
  "unclamped_cellSize (width wide_state) (weekCount (dataPoints wide_state))
     = Some (732 / 55)"
  by code_simp

lemma narrow_unclamped:
  "unclamped_cellSize (width narrow_state) (weekCount (dataPoints narrow_state))
     = Some (- (56 / 55))"
  by code_simp

lemma scenario_ordered:
  "dataPoints scenario_state \<noteq> [] \<and>
   date (hd (dataPoints scenario_state)) \<le> date (last (dataPoints scenario_state))"
  by code_simp

lemma wide_ordered:
  "dataPoints wide_state \<noteq> [] \<and>
   date (hd (dataPoints wide_state)) \<le> date (last (dataPoints wide_state))"
  by code_simp

lemma narrow_ordered:
  "dataPoints narrow_state \<noteq> [] \<and>
   date (hd (dataPoints narrow_state)) \<le> date (last (dataPoints narrow_state))"
  by code_simp

text \<open>
  C3. For data points in ascending order (the first date not after the last, as the
  data model requires) and any width \<open>W\<close>, with \<open>N\<close> the resulting week count and
  \<open>u\<close> the solution of \<open>u * (N + 2) + 3 * (N - 1) = W\<close>: the render computes a cell
  size that satisfies the equation whenever \<open>u\<close> is at most 14, and the cell size is
  exactly 14 whenever \<open>u\<close> exceeds 14.
\<close>

theorem cellSize_equation:
  assumes "dataPoints s \<noteq> []"
      and "date (hd (dataPoints s)) \<le> date (last (dataPoints s))"
  shows "\<exists>s' u. generateSVG L s = Some s' \<and>
           unclamped_cellSize (width s) (weekCount (dataPoints s)) = Some u \<and>
           (u \<le> 14 \<longrightarrow>
              cellSize s' * real_of_int (weekCount (dataPoints s) + 2)
                + 3 * real_of_int (weekCount (dataPoints s) - 1) = width s) \<and>
           (14 < u \<longrightarrow> cellSize s' = 14)"
proof -
  define n where "n = weekCount (dataPoints s)"
  define u where "u = (width s - real_of_int (n - 1) * cellGap) / real_of_int (n + 2)"
  have n: "1 \<le> n"
    unfolding n_def by (rule weekCount_ge_1 [OF assms])
  have u: "unclamped_cellSize (width s) (weekCount (dataPoints s)) = Some u"
    unfolding u_def n_def by (rule unclamped_cellSize_ordered [OF assms])
  from generateSVG_geometry [OF assms(1) u, of L]
  obtain s' where s': "generateSVG L s = Some s'" "cellSize s' = min u 14"
    by blast
  have eq: "u * real_of_int (n + 2) + 3 * real_of_int (n - 1) = width s"
    using n unfolding u_def cellGap_def by (simp add: field_simps)
  have "u \<le> 14 \<longrightarrow> cellSize s' * real_of_int (n + 2) + 3 * real_of_int (n - 1) = width s"
    using eq s'(2) by (simp add: min_def)
  moreover have "14 < u \<longrightarrow> cellSize s' = 14"
    using s'(2) by (simp add: min_def)
  ultimately show ?thesis
    using s'(1) u unfolding n_def by blast
qed

text \<open>
  The witness takes the year of data at width 888, where the solution 732/55 is below
  the cap, and the eight days of the scenario at width 200, where the solution 197/4
  is above it.
\<close>

theorem cellSize_equation_witness:
  "(dataPoints wide_state \<noteq> [] \<and>
    date (hd (dataPoints wide_state)) \<le> date (last (dataPoints wide_state)) \<and>
    (\<exists>s'. generateSVG lib0 wide_state = Some s' \<and>
       cellSize s' * real_of_int (weekCount (dataPoints wide_state) + 2)
         + 3 * real_of_int (weekCount (dataPoints wide_state) - 1) = width wide_state)) \<and>
   (dataPoints scenario_state \<noteq> [] \<and>
    date (hd (dataPoints scenario_state)) \<le> date (last (dataPoints scenario_state)) \<and>
    (\<exists>s'. generateSVG lib0 scenario_state = Some s' \<and> cellSize s' = 14))"
proof -
  have w: "dataPoints wide_state \<noteq> []"
          "date (hd (dataPoints wide_state)) \<le> date (last (dataPoints wide_state))"
    using wide_ordered by simp_all
  have c: "dataPoints scenario_state \<noteq> []"
          "date (hd (dataPoints scenario_state)) \<le> date (last (dataPoints scenario_state))"
    using scenario_ordered by simp_all
  have "\<exists>s'. generateSVG lib0 wide_state = Some s' \<and>
          cellSize s' * real_of_int (weekCount (dataPoints wide_state) + 2)
            + 3 * real_of_int (weekCount (dataPoints wide_state) - 1) = width wide_state"
    using cellSize_equation [OF w, of lib0] wide_unclamped by auto
  moreover have "\<exists>s'. generateSVG lib0 scenario_state = Some s' \<and> cellSize s' = 14"
    using cellSize_equation [OF c, of lib0] scenario_unclamped by auto
  ultimately show ?thesis
    using w c by blast
qed

text \<open>
  C9 as stated: every render with a positive width and data has a cell size that is
  positive and at most 14. The year of data at width 100 gives 53 weeks and the cell
  size (100 - 3 * 52) / 55 = -56/55.
\<close>

theorem cellSize_positive_counterexample:
  "0 < width narrow_state \<and> dataPoints narrow_state \<noteq> [] \<and>
   (case generateSVG lib0 narrow_state of
      None \<Rightarrow> False
    | Some s' \<Rightarrow> cellSize s' = - (56 / 55) \<and> \<not> 0 < cellSize s')"
proof -
  have d: "dataPoints narrow_state \<noteq> []"
    using narrow_ordered by simp
  have w: "0 < width narrow_state"
    by (simp add: narrow_state_def init_state_def)
  from generateSVG_geometry [OF d narrow_unclamped, of lib0]
  obtain s' where "generateSVG lib0 narrow_state = Some s'" "cellSize s' = min (- (56 / 55)) 14"
    by blast
  then show ?thesis
    using d w by simp
qed

text \<open>
  C9, amended. For every render with a positive width and data points in ascending
  order, the cell size is at most 14, and it is positive exactly when the width exceeds
  the total of the gaps, \<open>3 * (weekCount - 1)\<close>.
\<close>

theorem cellSize_bounds:
  assumes "0 < width s" and "dataPoints s \<noteq> []"
      and "date (hd (dataPoints s)) \<le> date (last (dataPoints s))"
  shows "\<exists>s'. generateSVG L s = Some s' \<and> cellSize s' \<le> 14 \<and>
           (0 < cellSize s' \<longleftrightarrow> 3 * real_of_int (weekCount (dataPoints s) - 1) < width s)"
proof -
  define n where "n = weekCount (dataPoints s)"
  define u where "u = (width s - real_of_int (n - 1) * cellGap) / real_of_int (n + 2)"
  have n: "1 \<le> n"
    unfolding n_def by (rule weekCount_ge_1 [OF assms(2,3)])
  have u: "unclamped_cellSize (width s) (weekCount (dataPoints s)) = Some u"
    unfolding u_def n_def by (rule unclamped_cellSize_ordered [OF assms(2,3)])
  from generateSVG_geometry [OF assms(2) u, of L]
  obtain s' where s': "generateSVG L s = Some s'" "cellSize s' = min u 14"
    by blast
  have "0 < u \<longleftrightarrow> 3 * real_of_int (n - 1) < width s"
    using n unfolding u_def cellGap_def by (simp add: zero_less_divide_iff mult.commute)
  moreover have "0 < cellSize s' \<longleftrightarrow> 0 < u"
    using s'(2) by (auto simp: min_def)
  ultimately have "0 < cellSize s' \<longleftrightarrow> 3 * real_of_int (n - 1) < width s"
    by simp
  moreover have "cellSize s' \<le> 14"
    using s'(2) by simp
  ultimately show ?thesis
    using s'(1) unfolding n_def by blast
qed

theorem cellSize_bounds_witness:
  "0 < width wide_state \<and> dataPoints wide_state \<noteq> [] \<and>
   date (hd (dataPoints wide_state)) \<le> date (last (dataPoints wide_state)) \<and>
   (\<exists>s'. generateSVG lib0 wide_state = Some s' \<and> cellSize s' \<le> 14 \<and>
      (0 < cellSize s' \<longleftrightarrow>
         3 * real_of_int (weekCount (dataPoints wide_state) - 1) < width wide_state))"
proof -
  have w: "0 < width wide_state"
    by (simp add: wide_state_def init_state_def)
  have d: "dataPoints wide_state \<noteq> []"
          "date (hd (dataPoints wide_state)) \<le> date (last (dataPoints wide_state))"
    using wide_ordered by simp_all
  show ?thesis
    using w d cellSize_bounds [OF w d, of lib0] by blast
qed

section \<open>Rendering without data\<close>

text \<open>
  C2 as stated: a render with an empty data-point sequence leaves the drawable content
  of the surface as it was. It does not: \<open>generateSVG\<close> clears the surface before it
  looks at the data. After the scenario has been rendered (the surface holds one
  group), a refresh with no data points at width 200 renders with empty data and
  leaves the surface empty.
\<close>

theorem generateSVG_empty_data_counterexample:
  "(case generateSVG lib0 scenario_state of
      None \<Rightarrow> False
    | Some s1 \<Rightarrow>
        length (svgRef s1) = 1 \<and>
        (case refreshSVG lib0 s1 [] 200 ''#666'' 14 of
           None \<Rightarrow> False
         | Some s2 \<Rightarrow> dataPoints s2 = [] \<and> svgRef s2 = [] \<and> svgRef s2 \<noteq> svgRef s1))"
proof -
  have d: "dataPoints scenario_state \<noteq> []"
    using scenario_ordered by simp
  from generateSVG_geometry [OF d scenario_unclamped, of lib0]
  obtain s1 where s1: "generateSVG lib0 scenario_state = Some s1" "length (svgRef s1) = 1"
    by blast
  have "svgRef s1 \<noteq> []"
    using s1(2) by auto
  then show ?thesis
    using s1 by (simp add: refreshSVG_def generateSVG_def)
qed

text \<open>
  C2, amended. A render with an empty data-point sequence aborts after clearing the
  surface: afterwards the surface has no content, nothing is drawn, every variable of
  the component (the geometry included) is unchanged, and the failure is reported by
  one error message on the console only.
\<close>

theorem generateSVG_empty_data:
  assumes "dataPoints s = []"
  shows "generateSVG L s = Some (s\<lparr>svgRef := [], console := console s @ [Error_no_data]\<rparr>)"
  using assms by (simp add: generateSVG_def)

theorem generateSVG_empty_data_witness:
  "dataPoints drawn_state = [] \<and>
   generateSVG lib0 drawn_state
     = Some (drawn_state\<lparr>svgRef := [], console := console drawn_state @ [Error_no_data]\<rparr>)"
proof -
  have h: "dataPoints drawn_state = []"
    by (simp add: drawn_state_def init_state_def)
  show ?thesis
    using h generateSVG_empty_data [OF h, of lib0] by simp
qed

section \<open>Colour scale properties\<close>

lemma Math_max_eq: "xs \<noteq> [] \<Longrightarrow> Math_max xs = Some (Max (set xs))"
proof (induction xs)
  case Nil
  then show ?case by simp
next
  case (Cons x xs)
  show ?case
  proof (cases "xs = []")
    case True
    then show ?thesis by simp
  next
    case False
    with Cons.IH show ?thesis by simp
  qed
qed

lemma clampi_mono: "u \<le> v \<Longrightarrow> clampi u \<le> clampi v"
  unfolding clampi_def Math_round_def
  by (intro max.mono min.mono order_refl floor_mono) simp

lemma scale_green:
  assumes "0 \<le> x" and "x \<le> m" and "0 < d"
  shows "green (scaleLinear_clamp (0, d, m) (color_empty, color_mid, color_high) x)
           = clampi (green_ramp d m x)"
proof -
  have m: "0 \<le> m" using assms by simp
  have c: "clamper 0 m x = x"
    using assms m by (simp add: clamper_def Let_def)
  show ?thesis
  proof (cases "x < d")
    case True
    then show ?thesis
      using m assms(3)
      by (simp add: scaleLinear_clamp_def c polymap_def bisect_1_2_def interpolateRgb_def
            normalize_def green_ramp_def color_empty_def color_mid_def color_high_def Let_def
            mult.commute)
  next
    case False
    then show ?thesis
      using m
      by (simp add: scaleLinear_clamp_def c polymap_def bisect_1_2_def interpolateRgb_def
            green_ramp_def color_empty_def color_mid_def color_high_def Let_def mult.commute)
  qed
qed

lemma normalize_nonneg:
  assumes "d \<le> x" and "x \<le> m"
  shows "0 \<le> normalize d m x"
  using assms by (simp add: normalize_def)

lemma normalize_mono:
  assumes "d \<le> a" and "a \<le> b" and "b \<le> m"
  shows "normalize d m a \<le> normalize d m b"
  using assms by (simp add: normalize_def divide_right_mono)

lemma green_ramp_antimono:
  assumes "0 \<le> a" and "a \<le> b" and "b \<le> m" and d: "0 < d"
  shows "green_ramp d m b \<le> green_ramp d m a"
proof -
  consider (low) "b < d" | (high) "d \<le> a" | (cross) "a < d" "d \<le> b"
    using assms(2) by linarith
  then show ?thesis
  proof cases
    case low
    then have "a < d" using assms(2) by simp
    moreover have "a / d \<le> b / d"
      using assms(2) d by (simp add: divide_right_mono)
    ultimately show ?thesis
      using low unfolding green_ramp_def by simp
  next
    case high
    then have "d \<le> b" using assms(2) by simp
    moreover have "normalize d m a \<le> normalize d m b"
      using high assms(2,3) by (rule normalize_mono)
    ultimately show ?thesis
      using high unfolding green_ramp_def by simp
  next
    case cross
    have "0 \<le> normalize d m b"
      using cross(2) assms(3) by (rule normalize_nonneg)
    moreover have "a / d < 1"
      using cross(1) d by simp
    ultimately show ?thesis
      using cross unfolding green_ramp_def by simp
  qed
qed

lemma scale_zero:
  assumes "0 \<le> m" and "0 < d"
  shows "scaleLinear_clamp (0, d, m) (color_empty, color_mid, color_high) 0 = color_empty"
  using assms
  by (simp add: scaleLinear_clamp_def clamper_def polymap_def bisect_1_2_def interpolateRgb_def
        normalize_def clampi_def Math_round_def color_empty_def color_mid_def color_high_def Let_def)

text \<open>
  C5 as stated: for counts \<open>a < b\<close> within \<open>[0, maxCount]\<close> the green channel at \<open>b\<close> is
  at least the green channel at \<open>a\<close>. The three colours of the range, \<open>#ebedf0\<close>,
  \<open>#7bc96f\<close> and \<open>#196127\<close>, have the green channels 237, 201 and 97, so the scale
  gets darker as the count grows. With a largest count of 10 the green channel is 237
  at count 0 and 97 at count 10.
\<close>

theorem colorScale_green_counterexample:
  "(case build_colorScale ten_dataPoints of
      None \<Rightarrow> False
    | Some f \<Rightarrow> green (f 0) = 237 \<and> green (f 10) = 97 \<and> \<not> green (f 0) \<le> green (f 10))"
  by code_simp

text \<open>
  C5, amended. For every non-empty data-point sequence the colour scale maps 0 to the
  empty-cell colour \<open>#ebedf0\<close>, whatever the data (also when every count is 0); and for
  every two counts \<open>a < b\<close> within \<open>[0, maxCount]\<close>, the green channel of the scale at
  \<open>b\<close> is less than or equal to its value at \<open>a\<close>.
\<close>

theorem colorScale_green_antimono:
  assumes "dps \<noteq> []"
  shows "\<exists>f. build_colorScale dps = Some f \<and> f 0 = color_empty \<and>
           (\<forall>a b. 0 \<le> a \<and> a < b \<and> b \<le> Max ((\<lambda>d. real (count d)) ` set dps) \<longrightarrow>
                  green (f b) \<le> green (f a))"
proof -
  define m where "m = Max ((\<lambda>d. real (count d)) ` set dps)"
  define f where
    "f = scaleLinear_clamp (0, max m 10 / 2, m) (color_empty, color_mid, color_high)"
  have "Math_max (map (\<lambda>d. real (count d)) dps) = Some m"
    using assms unfolding m_def by (simp add: Math_max_eq)
  then have f: "build_colorScale dps = Some f"
    by (simp add: build_colorScale_def f_def)
  have "m \<in> (\<lambda>d. real (count d)) ` set dps"
    unfolding m_def using assms by (intro Max_in) simp_all
  then have m: "0 \<le> m" by auto
  have d: "0 < max m 10 / 2" by simp
  have zero: "f 0 = color_empty"
    unfolding f_def by (rule scale_zero [OF m d])
  have mono: "green (f b) \<le> green (f a)" if "0 \<le> a" "a < b" "b \<le> m" for a b
  proof -
    have "green_ramp (max m 10 / 2) m b \<le> green_ramp (max m 10 / 2) m a"
      using that d by (intro green_ramp_antimono) simp_all
    then have "clampi (green_ramp (max m 10 / 2) m b) \<le> clampi (green_ramp (max m 10 / 2) m a)"
      by (rule clampi_mono)
    then show ?thesis
      unfolding f_def using that d by (simp add: scale_green del: max_less_iff_conj)
  qed
  show ?thesis
    using f zero mono unfolding m_def by blast
qed

text \<open>
  The witness: with counts 0 and 10 the scale maps 0 to the empty-cell colour and its
  green channel at 7 is at most that at 2; with all counts 0 the scale still exists and
  maps 0 to the empty-cell colour.
\<close>

theorem colorScale_green_antimono_witness:
  "(ten_dataPoints \<noteq> [] \<and> (0::real) \<le> 2 \<and> (2::real) < 7 \<and>
    7 \<le> Max ((\<lambda>d. real (count d)) ` set ten_dataPoints) \<and>
    (\<exists>f. build_colorScale ten_dataPoints = Some f \<and> f 0 = color_empty \<and>
       green (f 7) \<le> green (f 2))) \<and>
   (zero_dataPoints \<noteq> [] \<and> Max ((\<lambda>d. real (count d)) ` set zero_dataPoints) = 0 \<and>
    (\<exists>f. build_colorScale zero_dataPoints = Some f \<and> f 0 = color_empty))"
proof -
  have t: "ten_dataPoints \<noteq> []"
    by (simp add: ten_dataPoints_def)
  have h: "(0::real) \<le> 2 \<and> (2::real) < 7 \<and>
           7 \<le> Max ((\<lambda>d. real (count d)) ` set ten_dataPoints)"
    by (simp add: ten_dataPoints_def)
  have z: "zero_dataPoints \<noteq> []"
    by (simp add: zero_dataPoints_def)
  have zm: "Max ((\<lambda>d. real (count d)) ` set zero_dataPoints) = 0"
    by (simp add: zero_dataPoints_def)
  have "\<exists>f. build_colorScale ten_dataPoints = Some f \<and> f 0 = color_empty \<and>
          green (f 7) \<le> green (f 2)"
    using colorScale_green_antimono [OF t] h by blast
  moreover have "\<exists>f. build_colorScale zero_dataPoints = Some f \<and> f 0 = color_empty"
    using colorScale_green_antimono [OF z] by blast
  ultimately show ?thesis
    using t h z zm by blast
qed

section \<open>Day cells\<close>

lemma timeDay_floor_aligned: "timeDay_floor t mod durationDay = 0"
  unfolding timeDay_floor_def by (simp add: minus_mod_eq_div_mult)

lemma timeDay_floor_of_aligned: "t mod durationDay = 0 \<Longrightarrow> timeDay_floor t = t"
  unfolding timeDay_floor_def by simp

lemma aligned_next:
  assumes "a mod durationDay = 0" and "m mod durationDay = 0" and "a < m"
  shows "a + durationDay \<le> m"
proof -
  have "durationDay dvd m - a"
    using assms(1,2) by (simp add: dvd_diff mod_eq_0_iff_dvd)
  moreover have "0 < m - a" using assms(3) by simp
  ultimately have "durationDay \<le> m - a"
    by (rule zdvd_imp_le)
  then show ?thesis by simp
qed

lemma next_day_aligned:
  "s mod durationDay = 0 \<Longrightarrow> timeDay_floor (timeDay_offset s 1) = s + durationDay"
  by (simp add: timeDay_offset_def timeDay_floor_of_aligned)

lemma set_range_loop:
  assumes "s mod durationDay = 0" and "s < stop"
  shows "set (range_loop s stop) = {m. m mod durationDay = 0 \<and> s \<le> m \<and> m < stop}"
  using assms
proof (induction s stop rule: range_loop.induct)
  case (1 start stop)
  have nxt: "timeDay_floor (timeDay_offset start 1) = start + durationDay"
    using "1.prems"(1) by (rule next_day_aligned)
  have al: "(start + durationDay) mod durationDay = 0"
    using "1.prems"(1) by simp
  show ?case
  proof (cases "start + durationDay < stop")
    case True
    have "set (range_loop (start + durationDay) stop)
            = {m. m mod durationDay = 0 \<and> start + durationDay \<le> m \<and> m < stop}"
      using "1.IH" [OF nxt [symmetric]] nxt al True durationDay_pos by simp
    moreover have "range_loop start stop = start # range_loop (start + durationDay) stop"
      using True durationDay_pos by (subst range_loop.simps) (simp add: nxt Let_def)
    ultimately show ?thesis
      using "1.prems" aligned_next [OF "1.prems"(1), unfolded mod_eq_0_iff_dvd] durationDay_pos
      by fastforce
  next
    case False
    have "range_loop start stop = [start]"
      using False by (subst range_loop.simps) (simp add: nxt Let_def)
    then show ?thesis
      using "1.prems" False aligned_next [OF "1.prems"(1), unfolded mod_eq_0_iff_dvd]
      by fastforce
  qed
qed

lemma distinct_range_loop:
  assumes "s mod durationDay = 0" and "s < stop"
  shows "distinct (range_loop s stop)"
  using assms
proof (induction s stop rule: range_loop.induct)
  case (1 start stop)
  have nxt: "timeDay_floor (timeDay_offset start 1) = start + durationDay"
    using "1.prems"(1) by (rule next_day_aligned)
  have al: "(start + durationDay) mod durationDay = 0"
    using "1.prems"(1) by simp
  show ?case
  proof (cases "start + durationDay < stop")
    case True
    have "distinct (range_loop (start + durationDay) stop)"
      using "1.IH" [OF nxt [symmetric]] nxt al True durationDay_pos by simp
    moreover have "start \<notin> set (range_loop (start + durationDay) stop)"
      using set_range_loop [OF al True] durationDay_pos by simp
    moreover have "range_loop start stop = start # range_loop (start + durationDay) stop"
      using True durationDay_pos by (subst range_loop.simps) (simp add: nxt Let_def)
    ultimately show ?thesis by simp
  next
    case False
    have "range_loop start stop = [start]"
      using False by (subst range_loop.simps) (simp add: nxt Let_def)
    then show ?thesis by simp
  qed
qed

lemma timeDay_ceil_eq: "timeDay_ceil t = timeDay_floor (t - 1) + durationDay"
  unfolding timeDay_ceil_def
  by (simp add: next_day_aligned timeDay_floor_aligned)

lemma timeDay_ceil_aligned: "timeDay_ceil t mod durationDay = 0"
  unfolding timeDay_ceil_eq using timeDay_floor_aligned [of "t - 1"] by simp

lemma timeDay_ceil_ge: "t \<le> timeDay_ceil t"
proof -
  have "(t - 1) mod durationDay < durationDay"
    using durationDay_pos by simp
  then show ?thesis
    unfolding timeDay_ceil_eq timeDay_floor_def by simp
qed

lemma timeDay_ceil_least:
  assumes "m mod durationDay = 0" and "t \<le> m"
  shows "timeDay_ceil t \<le> m"
proof -
  have "0 \<le> (t - 1) mod durationDay"
    using durationDay_pos by simp
  then have "timeDay_floor (t - 1) < m"
    using assms(2) unfolding timeDay_floor_def by simp
  then show ?thesis
    unfolding timeDay_ceil_eq
    by (rule aligned_next [OF timeDay_floor_aligned assms(1)])
qed

text \<open>\<open>timeDays(start, stop)\<close> lists each midnight from \<open>start\<close> on and before \<open>stop\<close> once.\<close>

lemma set_timeDays:
  "set (timeDays start stop) = {m. m mod durationDay = 0 \<and> start \<le> m \<and> m < stop}"
proof (cases "timeDay_ceil start < stop")
  case True
  then have "set (timeDays start stop)
               = {m. m mod durationDay = 0 \<and> timeDay_ceil start \<le> m \<and> m < stop}"
    by (simp add: timeDays_def Let_def set_range_loop [OF timeDay_ceil_aligned])
  then show ?thesis
    using timeDay_ceil_least [of _ start, unfolded mod_eq_0_iff_dvd] timeDay_ceil_ge [of start]
    by fastforce
next
  case False
  then have "set (timeDays start stop) = {}"
    by (simp add: timeDays_def Let_def)
  then show ?thesis
    using False timeDay_ceil_least [of _ start, unfolded mod_eq_0_iff_dvd] by fastforce
qed

lemma distinct_timeDays: "distinct (timeDays start stop)"
  by (simp add: timeDays_def Let_def distinct_range_loop [OF timeDay_ceil_aligned])

lemma cells_dates: "map cell_date (cells s startDate endDate) = timeDays startDate endDate"
  by (simp add: cells_def make_cell_def Let_def comp_def)

text \<open>
  When the last date is a midnight, no cell is generated for its day; when the first
  date is not a midnight, no cell is generated for its day.
\<close>

lemma cells_miss_end_day:
  assumes "endDate mod durationDay = 0" and "c \<in> set (cells s startDate endDate)"
  shows "toDateString (cell_date c) \<noteq> toDateString endDate"
proof -
  have "cell_date c \<in> set (timeDays startDate endDate)"
    using assms(2) cells_dates [of s startDate endDate] by (metis imageI set_map)
  then have c: "cell_date c mod durationDay = 0" "cell_date c < endDate"
    by (simp_all add: set_timeDays)
  then have "cell_date c + durationDay \<le> endDate"
    using assms(1) by (intro aligned_next)
  then have "cell_date c div durationDay < endDate div durationDay"
    using c(1) assms(1) durationDay_pos
    by (metis add.commute div_add_self1 less_le_not_le not_less_iff_gr_or_eq zdiv_mono1 zless_add1_eq)
  then show ?thesis by (simp add: toDateString_def)
qed

lemma toDateString_eq_iff:
  "toDateString a = toDateString b \<longleftrightarrow> timeDay_floor a = timeDay_floor b"
proof -
  have "timeDay_floor t = toDateString t * durationDay" for t
    unfolding timeDay_floor_def toDateString_def by (simp add: minus_mod_eq_div_mult)
  then show ?thesis using durationDay_pos by simp
qed

lemma cells_miss_start_day:
  assumes "startDate mod durationDay \<noteq> 0" and "c \<in> set (cells s startDate endDate)"
  shows "toDateString (cell_date c) \<noteq> toDateString startDate"
proof -
  have "cell_date c \<in> set (timeDays startDate endDate)"
    using assms(2) cells_dates [of s startDate endDate] by (metis imageI set_map)
  then have c: "cell_date c mod durationDay = 0" "startDate \<le> cell_date c"
    by (simp_all add: set_timeDays)
  then have "startDate < cell_date c"
    using assms(1) by (cases "startDate = cell_date c") auto
  moreover have "timeDay_floor startDate \<le> startDate"
    unfolding timeDay_floor_def using durationDay_pos by simp
  ultimately have "timeDay_floor startDate < cell_date c" by simp
  moreover have "timeDay_floor (cell_date c) = cell_date c"
    using c(1) by (rule timeDay_floor_of_aligned)
  ultimately have "timeDay_floor startDate \<noteq> timeDay_floor (cell_date c)" by simp
  then show ?thesis
    by (simp add: toDateString_eq_iff)
qed

lemma cells_position:
  assumes "c \<in> set (cells s startDate endDate)"
  shows "cell_x c = real_of_int (timeMonday_count (timeMonday_floor startDate)
                                   (timeMonday_floor (cell_date c))) * (cellSize s + cellGap) \<and>
         cell_y c = real_of_int ((getDay (cell_date c) + 6) mod 7) * (cellSize s + cellGap)"
  using assms by (auto simp: cells_def make_cell_def Let_def)

lemma gap_days:
  "timeDays (date (hd gap_dataPoints)) (date (last gap_dataPoints))
     = [jan_1_2024, jan_1_2024 + durationDay, jan_1_2024 + 2 * durationDay,
        jan_1_2024 + 3 * durationDay]"
  by code_simp

text \<open>
  C1, at the scenario of the specification: data points for the eight days 2024-01-01
  .. 2024-01-08 (days 19723 .. 19730 of the time line). The cells are generated for
  the dates of \<open>timeDays(startDate, endDate)\<close>, which stops before \<open>endDate\<close>: there are
  seven cells, for 2024-01-01 .. 2024-01-07, and none for the last day.
\<close>

theorem cells_scenario_days:
  "map (\<lambda>c. toDateString (cell_date c))
     (cells scenario_state (date (hd scenario_dataPoints)) (date (last scenario_dataPoints)))
     = [19723, 19724, 19725, 19726, 19727, 19728, 19729] \<and>
   map (\<lambda>p. toDateString (date p)) scenario_dataPoints
     = [19723, 19724, 19725, 19726, 19727, 19728, 19729, 19730]"
  by code_simp

text \<open>
  C8. Every generated cell whose calendar day has no data point (dates compared by
  \<open>toDateString\<close>, that is by calendar day, whatever the time of day) has count 0 and
  the fill colour that the colour scale gives to 0; and where data points of that day
  exist, the cell takes the count of the first of them in the sequence.
\<close>

theorem cells_default_fill:
  assumes "c \<in> set (cells s startDate endDate)"
  shows "(\<not> (\<exists>p \<in> set (dataPoints s). toDateString (date p) = toDateString (cell_date c)) \<longrightarrow>
            cell_count c = 0 \<and> cell_fill c = colorScale s 0) \<and>
         (\<forall>i < length (dataPoints s).
            toDateString (date (dataPoints s ! i)) = toDateString (cell_date c) \<and>
            (\<forall>j < i. toDateString (date (dataPoints s ! j)) \<noteq> toDateString (cell_date c)) \<longrightarrow>
            cell_count c = count (dataPoints s ! i))"
proof -
  from assms obtain d where c: "c = make_cell s startDate d"
    unfolding cells_def by auto
  define P :: "HeatmapDataPoint \<Rightarrow> bool"
    where "P = (\<lambda>p. toDateString (date p) = toDateString d)"
  have d: "cell_date c = d"
    unfolding c by (simp add: make_cell_def Let_def)
  have none: "cell_count c = 0 \<and> cell_fill c = colorScale s 0" if "find P (dataPoints s) = None"
    using that unfolding c P_def by (simp add: make_cell_def Let_def)
  have some: "cell_count c = count p" if "find P (dataPoints s) = Some p" for p
    using that unfolding c P_def by (simp add: make_cell_def Let_def)
  have "cell_count c = 0 \<and> cell_fill c = colorScale s 0"
    if "\<not> (\<exists>p \<in> set (dataPoints s). toDateString (date p) = toDateString (cell_date c))"
  proof -
    from that have "find P (dataPoints s) = None"
      unfolding d P_def by (simp add: find_None_iff)
    then show ?thesis by (rule none)
  qed
  moreover have "cell_count c = count (dataPoints s ! i)"
    if "i < length (dataPoints s)"
       "toDateString (date (dataPoints s ! i)) = toDateString (cell_date c)"
       "\<forall>j < i. toDateString (date (dataPoints s ! j)) \<noteq> toDateString (cell_date c)" for i
  proof -
    from that have "find P (dataPoints s) = Some (dataPoints s ! i)"
      unfolding d P_def by (auto simp: find_Some_iff)
    then show ?thesis by (rule some)
  qed
  ultimately show ?thesis by blast
qed

text \<open>
  The witness: in the data with a gap and a duplicate, the cell of 2024-01-02 has no
  data point, and the cell of 2024-01-03 takes the count 7 of the first of its two
  data points.
\<close>

theorem cells_default_fill_witness:
  "make_cell gap_state jan_1_2024 (jan_1_2024 + durationDay)
     \<in> set (cells gap_state (date (hd gap_dataPoints)) (date (last gap_dataPoints))) \<and>
   \<not> (\<exists>p \<in> set (dataPoints gap_state).
         toDateString (date p) = toDateString (jan_1_2024 + durationDay)) \<and>
   cell_count (make_cell gap_state jan_1_2024 (jan_1_2024 + durationDay)) = 0 \<and>
   cell_fill (make_cell gap_state jan_1_2024 (jan_1_2024 + durationDay)) = colorScale gap_state 0 \<and>
   make_cell gap_state jan_1_2024 (jan_1_2024 + 2 * durationDay)
     \<in> set (cells gap_state (date (hd gap_dataPoints)) (date (last gap_dataPoints))) \<and>
   cell_count (make_cell gap_state jan_1_2024 (jan_1_2024 + 2 * durationDay)) = 7"
proof -
  let ?a = "date (hd gap_dataPoints)" and ?b = "date (last gap_dataPoints)"
  let ?c1 = "make_cell gap_state jan_1_2024 (jan_1_2024 + durationDay)"
  let ?c2 = "make_cell gap_state jan_1_2024 (jan_1_2024 + 2 * durationDay)"
  have a: "?a = jan_1_2024"
    by (simp add: gap_dataPoints_def)
  have dps: "dataPoints gap_state = gap_dataPoints"
    by (simp add: gap_state_def init_state_def)
  have d1: "cell_date ?c1 = jan_1_2024 + durationDay"
   and d2: "cell_date ?c2 = jan_1_2024 + 2 * durationDay"
    by (simp_all add: make_cell_def Let_def)
  have m1: "?c1 \<in> set (cells gap_state ?a ?b)" and m2: "?c2 \<in> set (cells gap_state ?a ?b)"
    unfolding cells_def gap_days by (simp_all add: a)
  have n1: "\<not> (\<exists>p \<in> set (dataPoints gap_state).
               toDateString (date p) = toDateString (jan_1_2024 + durationDay))"
    by (simp add: dps gap_dataPoints_def toDateString_def jan_1_2024_def durationDay_def)
  have i2: "1 < length (dataPoints gap_state) \<and>
            toDateString (date (dataPoints gap_state ! 1)) = toDateString (cell_date ?c2) \<and>
            (\<forall>j < 1. toDateString (date (dataPoints gap_state ! j)) \<noteq> toDateString (cell_date ?c2))"
    unfolding d2
    by (simp add: dps gap_dataPoints_def toDateString_def jan_1_2024_def durationDay_def)
  have c2: "count (dataPoints gap_state ! 1) = 7"
    by (simp add: dps gap_dataPoints_def)
  have "cell_count ?c1 = 0 \<and> cell_fill ?c1 = colorScale gap_state 0"
    using cells_default_fill [OF m1] n1 unfolding d1 by blast
  moreover have "cell_count ?c2 = 7"
    using cells_default_fill [OF m2] i2 c2 by metis
  ultimately show ?thesis
    using m1 m2 n1 by blast
qed

end
